theory Spec2Isabelle
  imports
    Main
    "HOL-Library.Sublist"
    "HOL-Library.Char_ord"
    "HOL-Library.List_Lexorder"
begin

section \<open>Data model (types.ts)\<close>

text \<open>
  The string-literal unions of \<^verbatim>\<open>types.ts\<close> are datatypes. \<open>Paper1\<close> is
  \<^verbatim>\<open>'Paper 1'\<close> and \<open>Paper2\<close> is \<^verbatim>\<open>'Paper 2/1-b'\<close>.
\<close>

datatype PaperType = Paper1 | Paper2

datatype ExamMonth = May | November | MonthUnknown

datatype Difficulty = Easy | Medium | Hard

text \<open>
  \<^verbatim>\<open>year: number | 'Unknown'\<close>. Every year number of the application comes from
  \<^verbatim>\<open>parseInt\<close> or \<^verbatim>\<open>getFullYear\<close>: it is an integer, an infinity (a very long run of
  digits) or \<^verbatim>\<open>NaN\<close>; the add-question form stores \<^verbatim>\<open>parseInt(e.target.value)\<close>, which is
  \<^verbatim>\<open>NaN\<close> when the year field has been emptied.
\<close>

datatype JsNumber = Finite int | PlusInfinity | MinusInfinity | NaN

datatype Year = YearNumber JsNumber | YearUnknown

text \<open>
  \<^verbatim>\<open>a === b\<close> on two years: the same string, or the same number, where \<^verbatim>\<open>NaN\<close> is
  equal to nothing, itself included.
\<close>

definition strictEquals :: "Year \<Rightarrow> Year \<Rightarrow> bool" where
  "strictEquals a b = (a = b \<and> a \<noteq> YearNumber NaN)"

datatype AnswerType = Selection | Image

datatype AnswerSelection = A | B | C | D

text \<open>
  A field declared \<^verbatim>\<open>f?: T | null\<close> is an \<open>option option\<close>: \<open>None\<close> is an absent
  property, \<open>Some None\<close> is \<^verbatim>\<open>null\<close>.
\<close>

record QuestionPart =
  part_id :: string
  label :: string
  questionImage :: "string option"
  answerImage :: "string option"

text \<open>
  The field \<^verbatim>\<open>id\<close> is \<open>qid\<close> and \<^verbatim>\<open>keywords\<close> is \<open>q_keywords\<close>: both names are taken in
  Isabelle.
\<close>

record Question =
  qid :: string
  createdAt :: int
  q_keywords :: "string list"
  topics :: "string list"
  difficulty :: Difficulty
  year :: Year
  month :: ExamMonth
  questionNumber :: string
  paperType :: PaperType
  p1QuestionImage :: "string option option"
  p1AnswerType :: "AnswerType option"
  p1AnswerSelection :: "AnswerSelection option option"
  p1AnswerImage :: "string option option"
  parts :: "QuestionPart list option"

text \<open>
  A selector of the filter is the wildcard \<^verbatim>\<open>'All'\<close> or one concrete value
  (\<^verbatim>\<open>PaperType | 'All'\<close>, \<^verbatim>\<open>number | 'All' | 'Unknown'\<close>, \<^verbatim>\<open>Difficulty | 'All'\<close>).
\<close>

datatype 'a Selected = All | Only 'a

text \<open>
  The filter state of \<^verbatim>\<open>App.tsx\<close> (eight \<^verbatim>\<open>useState\<close> cells; \<^verbatim>\<open>FilterState\<close> of
  \<^verbatim>\<open>types.ts\<close>), under the names the component gives them.
\<close>

record FilterState =
  searchQuery :: string
  includedKeywords :: "string list"
  excludedKeywords :: "string list"
  includedTopics :: "string list"
  excludedTopics :: "string list"
  selectedPaperType :: "PaperType Selected"
  selectedYear :: "Year Selected"
  selectedDifficulty :: "Difficulty Selected"

section \<open>String primitives\<close>

text \<open>
  A string is a list of UTF-16 code units; \<open>char\<close> holds the code units 0 .. 255, the
  Latin-1 range, and strings with a code unit from 256 on are outside this model.
  \<^verbatim>\<open>String.prototype.toLowerCase\<close> follows the Unicode case mapping, which on this range
  moves the capital letters \<open>A\<close> .. \<open>Z\<close> (65 .. 90) and the accented capitals 192 .. 222,
  except the multiplication sign 215, up by 32, and leaves every other code unit as it is.
\<close>

definition isUpperCase :: "char \<Rightarrow> bool" where
  "isUpperCase c =
     (let n = (of_char c :: nat)
      in (65 \<le> n \<and> n \<le> 90) \<or> (192 \<le> n \<and> n \<le> 222 \<and> n \<noteq> 215))"

definition toLowerChar :: "char \<Rightarrow> char" where
  "toLowerChar c = (if isUpperCase c then char_of ((of_char c :: nat) + 32) else c)"

definition toLowerCase :: "string \<Rightarrow> string" where
  "toLowerCase s = map toLowerChar s"

text \<open>
  \<^verbatim>\<open>hay.includes(needle)\<close> on strings: the needle starts at some position of the
  haystack.
\<close>

fun string_includes :: "string \<Rightarrow> string \<Rightarrow> bool" where
  "string_includes [] needle = (needle = [])"
| "string_includes (c # cs) needle =
     (prefix needle (c # cs) \<or> string_includes cs needle)"

text \<open>\<^verbatim>\<open>xs.includes(x)\<close> on an array of strings.\<close>

definition array_includes :: "string list \<Rightarrow> string \<Rightarrow> bool" where
  "array_includes xs x = (x \<in> set xs)"

section \<open>Query engine (filteredQuestions of App.tsx)\<close>

text \<open>
  Each \<^verbatim>\<open>const matches...\<close> of the filter callback is one definition.
  \<^verbatim>\<open>q.topics || []\<close> is \<open>topics q\<close>: an array, even an empty one, is truthy.
\<close>

definition matchesSearch :: "FilterState \<Rightarrow> Question \<Rightarrow> bool" where
  "matchesSearch f q =
     (searchQuery f = [] \<or>
      list_ex (\<lambda>k. string_includes (toLowerCase k) (toLowerCase (searchQuery f))) (q_keywords q) \<or>
      list_ex (\<lambda>t. string_includes (toLowerCase t) (toLowerCase (searchQuery f))) (topics q) \<or>
      string_includes (toLowerCase (questionNumber q)) (toLowerCase (searchQuery f)))"

definition matchesType :: "FilterState \<Rightarrow> Question \<Rightarrow> bool" where
  "matchesType f q = (selectedPaperType f = All \<or> Only (paperType q) = selectedPaperType f)"

definition matchesYear :: "FilterState \<Rightarrow> Question \<Rightarrow> bool" where
  "matchesYear f q =
     (case selectedYear f of All \<Rightarrow> True | Only y \<Rightarrow> strictEquals (year q) y)"

definition matchesDifficulty :: "FilterState \<Rightarrow> Question \<Rightarrow> bool" where
  "matchesDifficulty f q =
     (selectedDifficulty f = All \<or> Only (difficulty q) = selectedDifficulty f)"

definition matchesIncludedKeywords :: "FilterState \<Rightarrow> Question \<Rightarrow> bool" where
  "matchesIncludedKeywords f q =
     (length (includedKeywords f) = 0 \<or>
      list_all (\<lambda>k. array_includes (q_keywords q) k) (includedKeywords f))"

definition matchesIncludedTopics :: "FilterState \<Rightarrow> Question \<Rightarrow> bool" where
  "matchesIncludedTopics f q =
     (length (includedTopics f) = 0 \<or>
      list_all (\<lambda>t. array_includes (topics q) t) (includedTopics f))"

definition matchesExcludedKeywords :: "FilterState \<Rightarrow> Question \<Rightarrow> bool" where
  "matchesExcludedKeywords f q =
     (length (excludedKeywords f) = 0 \<or>
      \<not> list_ex (\<lambda>k. array_includes (excludedKeywords f) k) (q_keywords q))"

definition matchesExcludedTopics :: "FilterState \<Rightarrow> Question \<Rightarrow> bool" where
  "matchesExcludedTopics f q =
     (length (excludedTopics f) = 0 \<or>
      \<not> list_ex (\<lambda>t. array_includes (excludedTopics f) t) (topics q))"

text \<open>The value the callback returns, and the filtered list.\<close>

definition passesFilter :: "FilterState \<Rightarrow> Question \<Rightarrow> bool" where
  "passesFilter f q =
     (matchesSearch f q \<and> matchesType f q \<and> matchesYear f q \<and> matchesDifficulty f q \<and>
      matchesIncludedKeywords f q \<and> matchesIncludedTopics f q \<and>
      matchesExcludedKeywords f q \<and> matchesExcludedTopics f q)"

definition filteredQuestions :: "FilterState \<Rightarrow> Question list \<Rightarrow> Question list" where
  "filteredQuestions f questions = filter (passesFilter f) questions"

subsection \<open>Case-insensitive substring, in the specification's words\<close>

text \<open>
  The specification asks for a case-insensitive substring match. These definitions say
  it without lower-casing anything, to compare the code with: two code units are the same
  letter when they are equal or one is a capital letter and the other its small form, 32
  further on; the query occurs in a string when, at some position, the string goes on
  with the letters of the query.
\<close>

definition sameLetter :: "char \<Rightarrow> char \<Rightarrow> bool" where
  "sameLetter c d =
     (c = d \<or>
      (isUpperCase c \<and> (of_char d :: nat) = of_char c + 32) \<or>
      (isUpperCase d \<and> (of_char c :: nat) = of_char d + 32))"

fun startsWithIgnoringCase :: "string \<Rightarrow> string \<Rightarrow> bool" where
  "startsWithIgnoringCase hay [] = True"
| "startsWithIgnoringCase [] (c # cs) = False"
| "startsWithIgnoringCase (d # ds) (c # cs) = (sameLetter d c \<and> startsWithIgnoringCase ds cs)"

fun occursIgnoringCase :: "string \<Rightarrow> string \<Rightarrow> bool" where
  "occursIgnoringCase [] query = (query = [])"
| "occursIgnoringCase (d # ds) query =
     (startsWithIgnoringCase (d # ds) query \<or> occursIgnoringCase ds query)"

section \<open>Tag state manager (App.tsx)\<close>

text \<open>
  The two click handlers. Each reads the included and excluded arrays of the render it
  was created in and queues functional updates (\<^verbatim>\<open>prev => ...\<close>); one click is handled
  per render, so \<^verbatim>\<open>prev\<close> is the array the handler has just tested.
\<close>

definition toggleKeywordFilter :: "string \<Rightarrow> FilterState \<Rightarrow> FilterState" where
  "toggleKeywordFilter k f =
     (if array_includes (includedKeywords f) k then
        f\<lparr>includedKeywords := filter (\<lambda>i. i \<noteq> k) (includedKeywords f),
          excludedKeywords := excludedKeywords f @ [k]\<rparr>
      else if array_includes (excludedKeywords f) k then
        f\<lparr>excludedKeywords := filter (\<lambda>i. i \<noteq> k) (excludedKeywords f)\<rparr>
      else
        f\<lparr>includedKeywords := includedKeywords f @ [k]\<rparr>)"

definition toggleTopicFilter :: "string \<Rightarrow> FilterState \<Rightarrow> FilterState" where
  "toggleTopicFilter t f =
     (if array_includes (includedTopics f) t then
        f\<lparr>includedTopics := filter (\<lambda>i. i \<noteq> t) (includedTopics f),
          excludedTopics := excludedTopics f @ [t]\<rparr>
      else if array_includes (excludedTopics f) t then
        f\<lparr>excludedTopics := filter (\<lambda>i. i \<noteq> t) (excludedTopics f)\<rparr>
      else
        f\<lparr>includedTopics := includedTopics f @ [t]\<rparr>)"

datatype TagType = Keyword | Topic

datatype TagState = Include | Exclude | Neutral

definition getTagState :: "FilterState \<Rightarrow> string \<Rightarrow> TagType \<Rightarrow> TagState" where
  "getTagState f item ty =
     (case ty of
        Keyword \<Rightarrow>
          (if array_includes (includedKeywords f) item then Include
           else if array_includes (excludedKeywords f) item then Exclude
           else Neutral)
      | Topic \<Rightarrow>
          (if array_includes (includedTopics f) item then Include
           else if array_includes (excludedTopics f) item then Exclude
           else Neutral))"

text \<open>
  The initial values of the \<^verbatim>\<open>useState\<close> cells, and a run of clicks: a click names its
  namespace by the handler it calls.
\<close>

definition initialFilter :: FilterState where
  "initialFilter =
     \<lparr>searchQuery = [], includedKeywords = [], excludedKeywords = [],
      includedTopics = [], excludedTopics = [],
      selectedPaperType = All, selectedYear = All, selectedDifficulty = All\<rparr>"

fun toggle :: "FilterState \<Rightarrow> TagType \<times> string \<Rightarrow> FilterState" where
  "toggle f (Keyword, k) = toggleKeywordFilter k f"
| "toggle f (Topic, t) = toggleTopicFilter t f"

definition toggles :: "(TagType \<times> string) list \<Rightarrow> FilterState \<Rightarrow> FilterState" where
  "toggles clicks f = foldl toggle f clicks"

text \<open>The included and the excluded array of one namespace.\<close>

fun included :: "TagType \<Rightarrow> FilterState \<Rightarrow> string list" where
  "included Keyword f = includedKeywords f"
| "included Topic f = includedTopics f"

fun excluded :: "TagType \<Rightarrow> FilterState \<Rightarrow> string list" where
  "excluded Keyword f = excludedKeywords f"
| "excluded Topic f = excludedTopics f"

section \<open>Auto-tag rule engine (TopicTaggerModal)\<close>

text \<open>
  \<^verbatim>\<open>affectedQuestions\<close> and \<^verbatim>\<open>handleApply\<close> of the modal; \<open>kws\<close> is its
  \<^verbatim>\<open>keywords\<close> state, the trigger keywords. \<^verbatim>\<open>!targetTopic\<close> holds of the empty string.
\<close>

definition affectedQuestions :: "Question list \<Rightarrow> string \<Rightarrow> string list \<Rightarrow> Question list" where
  "affectedQuestions allQuestions targetTopic kws =
     (if targetTopic = [] \<or> length kws = 0 then []
      else filter (\<lambda>q.
             let hasKeyword = list_ex (\<lambda>k. array_includes kws k) (q_keywords q);
                 missingTopic = \<not> array_includes (topics q) targetTopic
             in hasKeyword \<and> missingTopic) allQuestions)"

definition handleApply :: "Question list \<Rightarrow> string \<Rightarrow> string list \<Rightarrow> Question list" where
  "handleApply allQuestions targetTopic kws =
     map (\<lambda>q. q\<lparr>topics := topics q @ [targetTopic]\<rparr>)
       (affectedQuestions allQuestions targetTopic kws)"

text \<open>
  The state update of \<^verbatim>\<open>handleAutoTag\<close> in \<^verbatim>\<open>App.tsx\<close>, run once the bulk write has
  succeeded: a record whose id is among the updated ones becomes the first updated record
  of that id. \<^verbatim>\<open>find\<close> gives \<^verbatim>\<open>undefined\<close> when nothing matches, here \<open>None\<close>.
\<close>

definition replaceUpdated :: "Question list \<Rightarrow> Question list \<Rightarrow> Question option list" where
  "replaceUpdated prev updatedQuestions =
     (let updatedIds = set (map qid updatedQuestions)
      in map (\<lambda>q. if qid q \<in> updatedIds
                   then find (\<lambda>uq. qid uq = qid q) updatedQuestions
                   else Some q) prev)"

section \<open>Record store (utils/db.ts)\<close>

subsection \<open>The storage engine\<close>

text \<open>
  \<^verbatim>\<open>db.ts\<close> drives the browser's IndexedDB through requests, transactions and their
  events. The engine is not code of the repository; this subsection is the part of its
  interface that \<^verbatim>\<open>db.ts\<close> uses: an object store \<^verbatim>\<open>questions\<close> with key path
  \<^verbatim>\<open>id\<close>, whose records are kept in key order, and transactions that either commit every
  change they made or none.

  A \<^verbatim>\<open>DOMException\<close> is known by its name. The \<^verbatim>\<open>error\<close> attribute of a request or a
  transaction is an exception or \<^verbatim>\<open>null\<close>.
\<close>

type_synonym DOMException = string

type_synonym Store = "Question list"

text \<open>
  \<^verbatim>\<open>store.put(q)\<close> with key path \<^verbatim>\<open>id\<close>: the record of that key is replaced, or the
  record is added at its place in key order. The key of a \<^verbatim>\<open>Question\<close> is a string and
  its fields are strings, numbers, arrays and \<^verbatim>\<open>null\<close>, so placing the request raises no
  exception; a request fails through its error event only.
\<close>

fun store_put :: "Question \<Rightarrow> Store \<Rightarrow> Store" where
  "store_put q [] = [q]"
| "store_put q (r # rs) =
     (if qid q = qid r then q # rs
      else if qid q < qid r then q # r # rs
      else r # store_put q rs)"

definition store_delete :: "string \<Rightarrow> Store \<Rightarrow> Store" where
  "store_delete i s = filter (\<lambda>r. qid r \<noteq> i) s"

datatype Request = Put Question | GetAll | Delete string | Clear

datatype Result = Key string | Records "Question list" | Undefined

fun apply_request :: "Request \<Rightarrow> Store \<Rightarrow> Store" where
  "apply_request (Put q) s = store_put q s"
| "apply_request GetAll s = s"
| "apply_request (Delete i) s = store_delete i s"
| "apply_request Clear s = []"

fun request_result :: "Request \<Rightarrow> Store \<Rightarrow> Result" where
  "request_result (Put q) s = Key (qid q)"
| "request_result GetAll s = Records s"
| "request_result (Delete i) s = Undefined"
| "request_result Clear s = Undefined"

text \<open>
  What the engine does during one call of \<^verbatim>\<open>db.ts\<close>: how \<^verbatim>\<open>indexedDB.open\<close> ends,
  which requests of the transaction fail (by position, with the request's error), and
  whether the transaction fails to commit once all its requests have succeeded.
  \<^verbatim>\<open>indexedDB.open\<close> returns a request that fires its success event or its error event,
  or it throws: a \<^verbatim>\<open>SecurityError\<close> where storage is disabled, a \<^verbatim>\<open>ReferenceError\<close> or
  \<^verbatim>\<open>TypeError\<close> where \<^verbatim>\<open>indexedDB\<close> is absent. A thrown exception is an object known by
  its name, like a \<^verbatim>\<open>DOMException\<close>.
\<close>

datatype OpenOutcome = OpenSuccess | OpenErrorEvent | OpenThrows DOMException

record Engine =
  openOutcome :: OpenOutcome
  requestFails :: "nat \<Rightarrow> DOMException option"
  commitFails :: "DOMException option"

abbreviation openFails :: "Engine \<Rightarrow> bool" where
  "openFails eng \<equiv> openOutcome eng \<noteq> OpenSuccess"

text \<open>
  The events the handlers of \<^verbatim>\<open>db.ts\<close> listen to. A success event is fired at its
  request. An error event is fired at its request and bubbles to the transaction; no
  handler of \<^verbatim>\<open>db.ts\<close> cancels it, so the transaction then aborts: its changes are
  reverted, its \<^verbatim>\<open>error\<close> attribute is set to the request's error (it is still \<^verbatim>\<open>null\<close>
  while the bubbling error event is handled), every request still pending gets an error
  event of its own with an \<^verbatim>\<open>AbortError\<close>, and the abort event is fired at the
  transaction. The transaction events carry the value of \<^verbatim>\<open>transaction.error\<close> at the
  time they are handled.
\<close>

datatype Event =
    RequestSuccess nat Result
  | RequestError nat DOMException
  | TransactionError "DOMException option"
  | TransactionAbort "DOMException option"
  | TransactionComplete

text \<open>The events of an abort with error \<open>e\<close> while requests \<open>i\<close>, \<open>i + 1\<close>, ... are pending.\<close>

fun abort_events :: "DOMException \<Rightarrow> nat \<Rightarrow> Request list \<Rightarrow> Event list" where
  "abort_events e i [] = [TransactionAbort (Some e)]"
| "abort_events e i (r # rs) =
     RequestError i ''AbortError'' # TransactionError (Some e) # abort_events e (Suc i) rs"

text \<open>
  The requests of a transaction run in the order they were placed, on a working copy of
  the store. The first failing request ends the run: \<open>None\<close> is returned for the working
  copy, which is dropped.
\<close>

fun run_requests :: "Engine \<Rightarrow> nat \<Rightarrow> Request list \<Rightarrow> Store \<Rightarrow> Event list \<times> Store option" where
  "run_requests eng i [] w = ([], Some w)"
| "run_requests eng i (r # rs) w =
     (case requestFails eng i of
        Some e \<Rightarrow> (RequestError i e # TransactionError None # abort_events e (Suc i) rs, None)
      | None \<Rightarrow>
          (case run_requests eng (Suc i) rs (apply_request r w) of
             (evs, w') \<Rightarrow> (RequestSuccess i (request_result r w) # evs, w')))"

text \<open>A transaction: the events it fires, and the store it leaves.\<close>

definition run_transaction :: "Engine \<Rightarrow> Request list \<Rightarrow> Store \<Rightarrow> Event list \<times> Store" where
  "run_transaction eng rs s =
     (case run_requests eng 0 rs s of
        (evs, None) \<Rightarrow> (evs, s)
      | (evs, Some w) \<Rightarrow>
          (case commitFails eng of
             None \<Rightarrow> (evs @ [TransactionComplete], w)
           | Some e \<Rightarrow> (evs @ [TransactionAbort (Some e)], s)))"

subsection \<open>Promises\<close>

text \<open>
  What a promise of \<^verbatim>\<open>db.ts\<close> is rejected with: the string literal of \<^verbatim>\<open>initDB\<close>
  (\<open>RejectString\<close>), or an exception object or \<^verbatim>\<open>null\<close> (\<open>RejectError\<close>): the \<^verbatim>\<open>error\<close>
  attribute of a request or a transaction, or an exception thrown inside the promise's
  executor. A promise is pending (\<open>None\<close>) or settled; settling a settled promise changes
  nothing.
\<close>

datatype Rejection = RejectString string | RejectError "DOMException option"

type_synonym 'a Promise = "(Rejection + 'a) option"

definition settle :: "'a Promise \<Rightarrow> Rejection + 'a \<Rightarrow> 'a Promise" where
  "settle p v = (case p of None \<Rightarrow> Some v | Some x \<Rightarrow> Some x)"

subsection \<open>The operations of db.ts\<close>

text \<open>
  \<^verbatim>\<open>initDB\<close>: the executor calls \<^verbatim>\<open>indexedDB.open\<close>; an exception thrown there rejects
  the promise with that exception. Otherwise \<^verbatim>\<open>request.onerror\<close> rejects with the
  string \<^verbatim>\<open>"IndexedDB error"\<close> and \<^verbatim>\<open>request.onsuccess\<close> resolves with the database.
  Every other operation starts with \<^verbatim>\<open>await initDB()\<close>, so a rejection of \<^verbatim>\<open>initDB\<close> is
  theirs.
\<close>

definition initDB :: "Engine \<Rightarrow> unit Promise" where
  "initDB eng =
     (case openOutcome eng of
        OpenThrows x \<Rightarrow> Some (Inl (RejectError (Some x)))
      | OpenErrorEvent \<Rightarrow> Some (Inl (RejectString ''IndexedDB error''))
      | OpenSuccess \<Rightarrow> Some (Inr ()))"

text \<open>The handlers on the single request of \<^verbatim>\<open>getAllQuestions\<close>.\<close>

fun getAll_handler :: "Question list Promise \<Rightarrow> Event \<Rightarrow> Question list Promise" where
  "getAll_handler p (RequestSuccess i (Records rs)) = settle p (Inr rs)"
| "getAll_handler p (RequestError i e) = settle p (Inl (RejectError (Some e)))"
| "getAll_handler p ev = p"

definition getAllQuestions :: "Engine \<Rightarrow> Store \<Rightarrow> Question list Promise \<times> Store" where
  "getAllQuestions eng s =
     (case initDB eng of
        None \<Rightarrow> (None, s)
      | Some (Inl r) \<Rightarrow> (Some (Inl r), s)
      | Some (Inr db) \<Rightarrow>
          (case run_transaction eng [GetAll] s of
             (evs, s') \<Rightarrow> (foldl getAll_handler None evs, s')))"

text \<open>
  The handlers on the single request of \<^verbatim>\<open>addQuestionToDB\<close>,
  \<^verbatim>\<open>deleteQuestionFromDB\<close> and \<^verbatim>\<open>clearAllQuestions\<close>:
  \<^verbatim>\<open>request.onsuccess = () => resolve()\<close>,
  \<^verbatim>\<open>request.onerror = () => reject(request.error)\<close>.
\<close>

fun request_handler :: "unit Promise \<Rightarrow> Event \<Rightarrow> unit Promise" where
  "request_handler p (RequestSuccess i r) = settle p (Inr ())"
| "request_handler p (RequestError i e) = settle p (Inl (RejectError (Some e)))"
| "request_handler p ev = p"

definition addQuestionToDB :: "Engine \<Rightarrow> Question \<Rightarrow> Store \<Rightarrow> unit Promise \<times> Store" where
  "addQuestionToDB eng question s =
     (case initDB eng of
        None \<Rightarrow> (None, s)
      | Some (Inl r) \<Rightarrow> (Some (Inl r), s)
      | Some (Inr db) \<Rightarrow>
          (case run_transaction eng [Put question] s of
             (evs, s') \<Rightarrow> (foldl request_handler None evs, s')))"

definition deleteQuestionFromDB :: "Engine \<Rightarrow> string \<Rightarrow> Store \<Rightarrow> unit Promise \<times> Store" where
  "deleteQuestionFromDB eng i s =
     (case initDB eng of
        None \<Rightarrow> (None, s)
      | Some (Inl r) \<Rightarrow> (Some (Inl r), s)
      | Some (Inr db) \<Rightarrow>
          (case run_transaction eng [Delete i] s of
             (evs, s') \<Rightarrow> (foldl request_handler None evs, s')))"

definition clearAllQuestions :: "Engine \<Rightarrow> Store \<Rightarrow> unit Promise \<times> Store" where
  "clearAllQuestions eng s =
     (case initDB eng of
        None \<Rightarrow> (None, s)
      | Some (Inl r) \<Rightarrow> (Some (Inl r), s)
      | Some (Inr db) \<Rightarrow>
          (case run_transaction eng [Clear] s of
             (evs, s') \<Rightarrow> (foldl request_handler None evs, s')))"

text \<open>
  \<^verbatim>\<open>bulkUpdateQuestions\<close>: one transaction, one \<^verbatim>\<open>put\<close> per record, and handlers on the
  transaction only: \<^verbatim>\<open>oncomplete\<close> resolves, \<^verbatim>\<open>onerror\<close> and \<^verbatim>\<open>onabort\<close> reject with
  \<^verbatim>\<open>transaction.error\<close>.
\<close>

fun bulk_handler :: "unit Promise \<Rightarrow> Event \<Rightarrow> unit Promise" where
  "bulk_handler p TransactionComplete = settle p (Inr ())"
| "bulk_handler p (TransactionError err) = settle p (Inl (RejectError err))"
| "bulk_handler p (TransactionAbort err) = settle p (Inl (RejectError err))"
| "bulk_handler p ev = p"

definition bulkUpdateQuestions :: "Engine \<Rightarrow> Question list \<Rightarrow> Store \<Rightarrow> unit Promise \<times> Store" where
  "bulkUpdateQuestions eng questions s =
     (case initDB eng of
        None \<Rightarrow> (None, s)
      | Some (Inl r) \<Rightarrow> (Some (Inl r), s)
      | Some (Inr db) \<Rightarrow>
          (case run_transaction eng (map Put questions) s of
             (evs, s') \<Rightarrow> (foldl bulk_handler None evs, s')))"

text \<open>The keys of a store are strictly increasing, hence pairwise different.\<close>

definition store_inv :: "Store \<Rightarrow> bool" where
  "store_inv s = sorted_wrt (<) (map qid s)"

section \<open>Sample data\<close>

text \<open>
  A Paper 1 record as \<^verbatim>\<open>handleSubmit\<close> of the add-question form builds it, with the
  given id, keywords, topics and year; used to run the definitions on concrete inputs.
\<close>

definition sampleQuestion :: "string \<Rightarrow> string list \<Rightarrow> string list \<Rightarrow> Year \<Rightarrow> Question" where
  "sampleQuestion i ks ts y =
     \<lparr>qid = i, createdAt = 0, q_keywords = ks, topics = ts, difficulty = Medium,
      year = y, month = May, questionNumber = ''Q7'', paperType = Paper1,
      p1QuestionImage = Some None, p1AnswerType = Some Selection,
      p1AnswerSelection = Some (Some B), p1AnswerImage = Some None, parts = None\<rparr>"

text \<open>An engine on which nothing fails, and one on which every request fails.\<close>

definition healthyEngine :: Engine where
  "healthyEngine = \<lparr>openOutcome = OpenSuccess, requestFails = (\<lambda>i. None), commitFails = None\<rparr>"


section \<open>Helper lemmas\<close>

lemma array_includes_set [simp]: "array_includes xs x \<longleftrightarrow> x \<in> set xs"
  by (simp add: array_includes_def)

lemma hasKeyword_iff:
  "list_ex (array_includes kws) ks \<longleftrightarrow> set ks \<inter> set kws \<noteq> {}"
  by (auto simp: list_ex_iff)

lemma filter_neq_id: "v \<notin> set xs \<Longrightarrow> filter (\<lambda>i. i \<noteq> v) xs = xs"
  by (induction xs) auto

lemma toLowerCase_WAV: "toLowerCase ''WAV'' = ''wav''"
  by code_simp

lemma toLowerCase_Waves: "toLowerCase ''Waves'' = ''waves''"
  by code_simp

section \<open>Lower-casing and the case-insensitive match\<close>

lemma of_char_toLowerChar:
  "(of_char (toLowerChar c) :: nat) = (if isUpperCase c then of_char c + 32 else of_char c)"
  by (auto simp: toLowerChar_def isUpperCase_def Let_def)

text \<open>
  Lower-casing sends two code units to the same one exactly when they are the same letter.
\<close>

lemma toLowerChar_eq_iff: "toLowerChar c = toLowerChar d \<longleftrightarrow> sameLetter c d"
proof -
  have "toLowerChar c = toLowerChar d \<longleftrightarrow>
        (of_char (toLowerChar c) :: nat) = of_char (toLowerChar d)"
    by simp
  also have "\<dots> \<longleftrightarrow> sameLetter c d"
    unfolding of_char_toLowerChar sameLetter_def
    by (cases "c = d") (auto simp: isUpperCase_def Let_def)
  finally show ?thesis .
qed

lemma sameLetter_sym: "sameLetter c d \<longleftrightarrow> sameLetter d c"
  by (auto simp: sameLetter_def)

lemma prefix_lower_iff:
  "prefix (toLowerCase query) (toLowerCase hay) \<longleftrightarrow> startsWithIgnoringCase hay query"
  by (induction hay query rule: startsWithIgnoringCase.induct)
    (auto simp: toLowerCase_def toLowerChar_eq_iff sameLetter_sym)

text \<open>
  The test of the code, \<^verbatim>\<open>k.toLowerCase().includes(searchQuery.toLowerCase())\<close>, is the
  case-insensitive substring match of the specification.
\<close>

lemma includes_lower_iff:
  "string_includes (toLowerCase hay) (toLowerCase query) \<longleftrightarrow> occursIgnoringCase hay query"
proof (induction hay)
  case Nil
  then show ?case by (simp add: toLowerCase_def)
next
  case (Cons d ds)
  have "prefix (toLowerCase query) (toLowerCase (d # ds))
        \<longleftrightarrow> startsWithIgnoringCase (d # ds) query"
    by (rule prefix_lower_iff)
  then show ?case using Cons by (simp add: toLowerCase_def)
qed

lemma toLowerChar_E_acute: "toLowerChar (char_of (201 :: nat)) = char_of (233 :: nat)"
  by code_simp

section \<open>Query engine: the conjuncts of the filter\<close>

lemma matchesSearch_iff:
  "matchesSearch f q \<longleftrightarrow>
     searchQuery f = [] \<or>
     (\<exists>k \<in> set (q_keywords q). occursIgnoringCase k (searchQuery f)) \<or>
     (\<exists>t \<in> set (topics q). occursIgnoringCase t (searchQuery f)) \<or>
     occursIgnoringCase (questionNumber q) (searchQuery f)"
  by (simp add: matchesSearch_def list_ex_iff includes_lower_iff)

lemma matchesType_iff:
  "matchesType f q \<longleftrightarrow> selectedPaperType f = All \<or> selectedPaperType f = Only (paperType q)"
  by (auto simp: matchesType_def)

lemma matchesDifficulty_iff:
  "matchesDifficulty f q \<longleftrightarrow>
     selectedDifficulty f = All \<or> selectedDifficulty f = Only (difficulty q)"
  by (auto simp: matchesDifficulty_def)

text \<open>
  The year conjunct: the wildcard, or the record's own year, unless that year is
  \<^verbatim>\<open>NaN\<close>.
\<close>

lemma matchesYear_iff:
  "matchesYear f q \<longleftrightarrow>
     selectedYear f = All \<or> (selectedYear f = Only (year q) \<and> year q \<noteq> YearNumber NaN)"
  by (auto simp: matchesYear_def strictEquals_def split: Selected.splits)

lemma matchesYear_sentinel:
  "year q = YearUnknown \<Longrightarrow> selectedYear f = Only (YearNumber n) \<Longrightarrow> \<not> matchesYear f q"
  "year q = YearNumber n \<Longrightarrow> selectedYear f = Only YearUnknown \<Longrightarrow> \<not> matchesYear f q"
  by (simp_all add: matchesYear_def strictEquals_def)

lemma matchesIncludedKeywords_iff:
  "matchesIncludedKeywords f q \<longleftrightarrow>
     set (includedKeywords f) = {} \<or> set (includedKeywords f) \<subseteq> set (q_keywords q)"
  by (auto simp: matchesIncludedKeywords_def list_all_iff)

lemma matchesIncludedTopics_iff:
  "matchesIncludedTopics f q \<longleftrightarrow>
     set (includedTopics f) = {} \<or> set (includedTopics f) \<subseteq> set (topics q)"
  by (auto simp: matchesIncludedTopics_def list_all_iff)

lemma matchesExcludedKeywords_iff:
  "matchesExcludedKeywords f q \<longleftrightarrow>
     set (excludedKeywords f) = {} \<or> set (excludedKeywords f) \<inter> set (q_keywords q) = {}"
  by (auto simp: matchesExcludedKeywords_def list_ex_iff)

lemma matchesExcludedTopics_iff:
  "matchesExcludedTopics f q \<longleftrightarrow>
     set (excludedTopics f) = {} \<or> set (excludedTopics f) \<inter> set (topics q) = {}"
  by (auto simp: matchesExcludedTopics_def list_ex_iff)

text \<open>
  What the free-text and dropdown conjuncts of the callback decide, for every record and
  filter: the query is empty or occurs, ignoring case, in a keyword, a topic or the
  question number; paper type and difficulty are the wildcard or the record's value; the
  year is the wildcard or the record's year, unless that year is \<^verbatim>\<open>NaN\<close>.
\<close>

lemma text_and_dropdowns_iff:
  "matchesSearch f q \<and> matchesType f q \<and> matchesYear f q \<and> matchesDifficulty f q \<longleftrightarrow>
     (searchQuery f = [] \<or>
      (\<exists>k \<in> set (q_keywords q). occursIgnoringCase k (searchQuery f)) \<or>
      (\<exists>t \<in> set (topics q). occursIgnoringCase t (searchQuery f)) \<or>
      occursIgnoringCase (questionNumber q) (searchQuery f)) \<and>
     (selectedPaperType f = All \<or> selectedPaperType f = Only (paperType q)) \<and>
     (selectedYear f = All \<or> (selectedYear f = Only (year q) \<and> year q \<noteq> YearNumber NaN)) \<and>
     (selectedDifficulty f = All \<or> selectedDifficulty f = Only (difficulty q))"
  by (simp only: matchesSearch_iff matchesType_iff matchesYear_iff matchesDifficulty_iff)

section \<open>Query engine: the filter predicate\<close>

text \<open>
  C1. The callback of \<^verbatim>\<open>filteredQuestions\<close> keeps a record exactly when its free-text and
  dropdown conjuncts hold and the record passes the tag constraints, and the record passes
  the tag constraints exactly when: the included keywords are none or all among the
  record's keywords; the excluded keywords are none or none of them is among the record's
  keywords; and the same two conditions hold of the included and excluded topics against
  the record's topics. The filtered list is the list of the records kept. With included
  keywords a, b and excluded keyword c (a, b, c, d pairwise different): a record with
  keywords a, b, d passes both keyword constraints, and is kept when the filter constrains
  nothing else; a record with keyword a alone is dropped; a record with keywords a, b, c
  is dropped.
\<close>

theorem passesFilter_tags:
  "(passesFilter f q \<longleftrightarrow>
      (matchesSearch f q \<and> matchesType f q \<and> matchesYear f q \<and> matchesDifficulty f q) \<and>
      (set (includedKeywords f) = {} \<or> set (includedKeywords f) \<subseteq> set (q_keywords q)) \<and>
      (set (excludedKeywords f) = {} \<or> set (excludedKeywords f) \<inter> set (q_keywords q) = {}) \<and>
      (set (includedTopics f) = {} \<or> set (includedTopics f) \<subseteq> set (topics q)) \<and>
      (set (excludedTopics f) = {} \<or> set (excludedTopics f) \<inter> set (topics q) = {})) \<and>
   (matchesIncludedKeywords f q \<and> matchesIncludedTopics f q \<and>
    matchesExcludedKeywords f q \<and> matchesExcludedTopics f q \<longleftrightarrow>
      (set (includedKeywords f) = {} \<or> set (includedKeywords f) \<subseteq> set (q_keywords q)) \<and>
      (set (excludedKeywords f) = {} \<or> set (excludedKeywords f) \<inter> set (q_keywords q) = {}) \<and>
      (set (includedTopics f) = {} \<or> set (includedTopics f) \<subseteq> set (topics q)) \<and>
      (set (excludedTopics f) = {} \<or> set (excludedTopics f) \<inter> set (topics q) = {})) \<and>
   filteredQuestions f qs =
     filter (\<lambda>q.
       (matchesSearch f q \<and> matchesType f q \<and> matchesYear f q \<and> matchesDifficulty f q) \<and>
       (set (includedKeywords f) = {} \<or> set (includedKeywords f) \<subseteq> set (q_keywords q)) \<and>
       (set (excludedKeywords f) = {} \<or> set (excludedKeywords f) \<inter> set (q_keywords q) = {}) \<and>
       (set (includedTopics f) = {} \<or> set (includedTopics f) \<subseteq> set (topics q)) \<and>
       (set (excludedTopics f) = {} \<or> set (excludedTopics f) \<inter> set (topics q) = {})) qs \<and>
   (distinct [a, b, c, d] \<and> set (includedKeywords f) = {a, b} \<and> set (excludedKeywords f) = {c} \<longrightarrow>
      (set (q_keywords q) = {a, b, d} \<longrightarrow>
         matchesIncludedKeywords f q \<and> matchesExcludedKeywords f q \<and>
         (searchQuery f = [] \<and> selectedPaperType f = All \<and> selectedYear f = All \<and>
          selectedDifficulty f = All \<and> includedTopics f = [] \<and> excludedTopics f = [] \<longrightarrow>
            passesFilter f q \<and> (q \<in> set qs \<longrightarrow> q \<in> set (filteredQuestions f qs)))) \<and>
      (set (q_keywords q) = {a} \<longrightarrow>
         \<not> passesFilter f q \<and> q \<notin> set (filteredQuestions f qs)) \<and>
      (set (q_keywords q) = {a, b, c} \<longrightarrow>
         \<not> passesFilter f q \<and> q \<notin> set (filteredQuestions f qs)))"
proof -
  have pass: "passesFilter f q \<longleftrightarrow>
      (matchesSearch f q \<and> matchesType f q \<and> matchesYear f q \<and> matchesDifficulty f q) \<and>
      (set (includedKeywords f) = {} \<or> set (includedKeywords f) \<subseteq> set (q_keywords q)) \<and>
      (set (excludedKeywords f) = {} \<or> set (excludedKeywords f) \<inter> set (q_keywords q) = {}) \<and>
      (set (includedTopics f) = {} \<or> set (includedTopics f) \<subseteq> set (topics q)) \<and>
      (set (excludedTopics f) = {} \<or> set (excludedTopics f) \<inter> set (topics q) = {})" for q
    unfolding passesFilter_def matchesIncludedKeywords_iff matchesIncludedTopics_iff
      matchesExcludedKeywords_iff matchesExcludedTopics_iff
    by blast
  have tags: "matchesIncludedKeywords f q \<and> matchesIncludedTopics f q \<and>
      matchesExcludedKeywords f q \<and> matchesExcludedTopics f q \<longleftrightarrow>
      (set (includedKeywords f) = {} \<or> set (includedKeywords f) \<subseteq> set (q_keywords q)) \<and>
      (set (excludedKeywords f) = {} \<or> set (excludedKeywords f) \<inter> set (q_keywords q) = {}) \<and>
      (set (includedTopics f) = {} \<or> set (includedTopics f) \<subseteq> set (topics q)) \<and>
      (set (excludedTopics f) = {} \<or> set (excludedTopics f) \<inter> set (topics q) = {})"
    unfolding matchesIncludedKeywords_iff matchesIncludedTopics_iff
      matchesExcludedKeywords_iff matchesExcludedTopics_iff
    by blast
  have list: "filteredQuestions f qs =
     filter (\<lambda>q.
       (matchesSearch f q \<and> matchesType f q \<and> matchesYear f q \<and> matchesDifficulty f q) \<and>
       (set (includedKeywords f) = {} \<or> set (includedKeywords f) \<subseteq> set (q_keywords q)) \<and>
       (set (excludedKeywords f) = {} \<or> set (excludedKeywords f) \<inter> set (q_keywords q) = {}) \<and>
       (set (includedTopics f) = {} \<or> set (includedTopics f) \<subseteq> set (topics q)) \<and>
       (set (excludedTopics f) = {} \<or> set (excludedTopics f) \<inter> set (topics q) = {})) qs"
    unfolding filteredQuestions_def by (rule filter_cong [OF refl]) (rule pass)
  have mem: "q \<in> set (filteredQuestions f qs) \<longleftrightarrow> q \<in> set qs \<and> passesFilter f q"
    by (simp add: filteredQuestions_def)
  have ok: "matchesIncludedKeywords f q \<and> matchesExcludedKeywords f q"
    if "distinct [a, b, c, d]" "set (includedKeywords f) = {a, b}" "set (excludedKeywords f) = {c}"
      "set (q_keywords q) = {a, b, d}"
    using that by (auto simp: matchesIncludedKeywords_iff matchesExcludedKeywords_iff)
  have rest: "matchesSearch f q \<and> matchesType f q \<and> matchesYear f q \<and> matchesDifficulty f q \<and>
      matchesIncludedTopics f q \<and> matchesExcludedTopics f q"
    if "searchQuery f = []" "selectedPaperType f = All" "selectedYear f = All"
      "selectedDifficulty f = All" "includedTopics f = []" "excludedTopics f = []"
    using that
    by (simp add: matchesSearch_def matchesType_def matchesYear_def matchesDifficulty_def
        matchesIncludedTopics_def matchesExcludedTopics_def)
  have missing: "\<not> matchesIncludedKeywords f q"
    if "distinct [a, b, c, d]" "set (includedKeywords f) = {a, b}" "set (q_keywords q) = {a}"
    using that by (auto simp: matchesIncludedKeywords_iff)
  have banned: "\<not> matchesExcludedKeywords f q"
    if "set (excludedKeywords f) = {c}" "set (q_keywords q) = {a, b, c}"
    using that by (auto simp: matchesExcludedKeywords_iff)
  have example_at: "(set (q_keywords q) = {a, b, d} \<longrightarrow>
         matchesIncludedKeywords f q \<and> matchesExcludedKeywords f q \<and>
         (searchQuery f = [] \<and> selectedPaperType f = All \<and> selectedYear f = All \<and>
          selectedDifficulty f = All \<and> includedTopics f = [] \<and> excludedTopics f = [] \<longrightarrow>
            passesFilter f q \<and> (q \<in> set qs \<longrightarrow> q \<in> set (filteredQuestions f qs)))) \<and>
      (set (q_keywords q) = {a} \<longrightarrow>
         \<not> passesFilter f q \<and> q \<notin> set (filteredQuestions f qs)) \<and>
      (set (q_keywords q) = {a, b, c} \<longrightarrow>
         \<not> passesFilter f q \<and> q \<notin> set (filteredQuestions f qs))"
    if h: "distinct [a, b, c, d]" "set (includedKeywords f) = {a, b}"
      "set (excludedKeywords f) = {c}"
  proof (intro conjI impI)
    assume k: "set (q_keywords q) = {a, b, d}"
    from ok [OF h k] show "matchesIncludedKeywords f q" "matchesExcludedKeywords f q"
      by simp_all
    assume e: "searchQuery f = [] \<and> selectedPaperType f = All \<and> selectedYear f = All \<and>
          selectedDifficulty f = All \<and> includedTopics f = [] \<and> excludedTopics f = []"
    then have "matchesSearch f q \<and> matchesType f q \<and> matchesYear f q \<and> matchesDifficulty f q \<and>
      matchesIncludedTopics f q \<and> matchesExcludedTopics f q"
      using rest by blast
    with ok [OF h k] show p: "passesFilter f q"
      by (simp add: passesFilter_def)
    assume "q \<in> set qs"
    with p show "q \<in> set (filteredQuestions f qs)" by (simp add: mem)
  next
    assume k: "set (q_keywords q) = {a}"
    from missing [OF h(1,2) k] show "\<not> passesFilter f q"
      by (simp add: passesFilter_def)
    then show "q \<notin> set (filteredQuestions f qs)" by (simp add: mem)
  next
    assume k: "set (q_keywords q) = {a, b, c}"
    from banned [OF h(3) k] show "\<not> passesFilter f q"
      by (simp add: passesFilter_def)
    then show "q \<notin> set (filteredQuestions f qs)" by (simp add: mem)
  qed
  have example: "distinct [a, b, c, d] \<and> set (includedKeywords f) = {a, b} \<and>
      set (excludedKeywords f) = {c} \<longrightarrow>
      (set (q_keywords q) = {a, b, d} \<longrightarrow>
         matchesIncludedKeywords f q \<and> matchesExcludedKeywords f q \<and>
         (searchQuery f = [] \<and> selectedPaperType f = All \<and> selectedYear f = All \<and>
          selectedDifficulty f = All \<and> includedTopics f = [] \<and> excludedTopics f = [] \<longrightarrow>
            passesFilter f q \<and> (q \<in> set qs \<longrightarrow> q \<in> set (filteredQuestions f qs)))) \<and>
      (set (q_keywords q) = {a} \<longrightarrow>
         \<not> passesFilter f q \<and> q \<notin> set (filteredQuestions f qs)) \<and>
      (set (q_keywords q) = {a, b, c} \<longrightarrow>
         \<not> passesFilter f q \<and> q \<notin> set (filteredQuestions f qs))"
    (is "?H \<longrightarrow> ?Q")
  proof
    assume ?H
    then show ?Q by (intro example_at) simp_all
  qed
  show ?thesis
    by (intro conjI) (rule pass tags list example)+
qed

theorem passesFilter_tags_witness:
  "filteredQuestions
     (initialFilter\<lparr>includedKeywords := [''A'', ''B''], excludedKeywords := [''C'']\<rparr>)
     [sampleQuestion ''q1'' [''A'', ''B'', ''D''] [] YearUnknown,
      sampleQuestion ''q2'' [''A''] [] YearUnknown,
      sampleQuestion ''q3'' [''A'', ''B'', ''C''] [] YearUnknown]
   = [sampleQuestion ''q1'' [''A'', ''B'', ''D''] [] YearUnknown] \<and>
   passesFilter (initialFilter\<lparr>includedKeywords := [''A'', ''B''], excludedKeywords := [''C'']\<rparr>)
     (sampleQuestion ''q1'' [''A'', ''B'', ''D''] [] YearUnknown) \<and>
   \<not> passesFilter (initialFilter\<lparr>includedKeywords := [''A'', ''B''], excludedKeywords := [''C'']\<rparr>)
     (sampleQuestion ''q2'' [''A''] [] YearUnknown) \<and>
   \<not> passesFilter (initialFilter\<lparr>includedKeywords := [''A'', ''B''], excludedKeywords := [''C'']\<rparr>)
     (sampleQuestion ''q3'' [''A'', ''B'', ''C''] [] YearUnknown)"
proof -
  have s: "matchesSearch
      (initialFilter\<lparr>includedKeywords := [''A'', ''B''], excludedKeywords := [''C'']\<rparr>) q"
    "matchesType
      (initialFilter\<lparr>includedKeywords := [''A'', ''B''], excludedKeywords := [''C'']\<rparr>) q"
    "matchesYear
      (initialFilter\<lparr>includedKeywords := [''A'', ''B''], excludedKeywords := [''C'']\<rparr>) q"
    "matchesDifficulty
      (initialFilter\<lparr>includedKeywords := [''A'', ''B''], excludedKeywords := [''C'']\<rparr>) q" for q
    by (simp_all add: initialFilter_def matchesSearch_def matchesType_def matchesYear_def
        matchesDifficulty_def)
  show ?thesis
    using
      passesFilter_tags [of
        "initialFilter\<lparr>includedKeywords := [''A'', ''B''], excludedKeywords := [''C'']\<rparr>"
        "sampleQuestion ''q1'' [''A'', ''B'', ''D''] [] YearUnknown"
        "[sampleQuestion ''q1'' [''A'', ''B'', ''D''] [] YearUnknown,
          sampleQuestion ''q2'' [''A''] [] YearUnknown,
          sampleQuestion ''q3'' [''A'', ''B'', ''C''] [] YearUnknown]"
        "''A''" "''B''" "''C''" "''D''"]
      passesFilter_tags [of
        "initialFilter\<lparr>includedKeywords := [''A'', ''B''], excludedKeywords := [''C'']\<rparr>"
        "sampleQuestion ''q2'' [''A''] [] YearUnknown" "[]" "''A''" "''B''" "''C''" "''D''"]
      passesFilter_tags [of
        "initialFilter\<lparr>includedKeywords := [''A'', ''B''], excludedKeywords := [''C'']\<rparr>"
        "sampleQuestion ''q3'' [''A'', ''B'', ''C''] [] YearUnknown" "[]"
        "''A''" "''B''" "''C''" "''D''"]
    by (simp add: s) (simp add: initialFilter_def sampleQuestion_def)
qed

text \<open>
  C2. The year conjunct of the callback is \<^verbatim>\<open>q.year === selectedYear\<close>, and \<^verbatim>\<open>NaN\<close> is
  strictly equal to nothing. A record saved with an emptied year field has the year
  \<^verbatim>\<open>NaN\<close>; the year dropdown lists that year, and choosing it sets the filter to \<^verbatim>\<open>NaN\<close>.
  With every other filter at its initial value, the filter's year is then the record's
  year, and yet the year conjunct fails, the callback drops the record and the filtered
  list is empty.
\<close>

theorem passesFilter_NaN_year:
  "selectedYear (initialFilter\<lparr>selectedYear := Only (YearNumber NaN)\<rparr>)
     = Only (year (sampleQuestion ''q1'' [''waves''] [] (YearNumber NaN))) \<and>
   \<not> matchesYear (initialFilter\<lparr>selectedYear := Only (YearNumber NaN)\<rparr>)
       (sampleQuestion ''q1'' [''waves''] [] (YearNumber NaN)) \<and>
   \<not> passesFilter (initialFilter\<lparr>selectedYear := Only (YearNumber NaN)\<rparr>)
       (sampleQuestion ''q1'' [''waves''] [] (YearNumber NaN)) \<and>
   filteredQuestions (initialFilter\<lparr>selectedYear := Only (YearNumber NaN)\<rparr>)
     [sampleQuestion ''q1'' [''waves''] [] (YearNumber NaN)] = []"
  by (simp add: filteredQuestions_def passesFilter_def matchesYear_def strictEquals_def
      initialFilter_def sampleQuestion_def)

text \<open>
  The same filter on a record of the year 2021, and the case-insensitive search: the query
  \<open>WAV\<close> finds the keyword \<open>Waves\<close>.
\<close>

lemma passesFilter_year_2021:
  "passesFilter
     (initialFilter\<lparr>searchQuery := ''WAV'', selectedYear := Only (YearNumber (Finite 2021))\<rparr>)
     (sampleQuestion ''q1'' [''Waves''] [] (YearNumber (Finite 2021)))"
proof -
  have "string_includes ''waves'' ''wav''"
    by code_simp
  then show ?thesis
    by (simp add: passesFilter_def matchesSearch_def matchesType_def matchesYear_def
        matchesDifficulty_def matchesIncludedKeywords_def matchesIncludedTopics_def
        matchesExcludedKeywords_def matchesExcludedTopics_def strictEquals_def
        initialFilter_def sampleQuestion_def toLowerCase_WAV toLowerCase_Waves)
qed

section \<open>Auto-tag rule engine\<close>

lemma find_by_qid:
  "i \<in> qid ` set us \<Longrightarrow> \<exists>u. find (\<lambda>uq. qid uq = i) us = Some u \<and> u \<in> set us \<and> qid u = i"
  by (induction us) auto

lemma affectedQuestions_empty:
  "(\<forall>q \<in> set qs. \<not> (set (q_keywords q) \<inter> set kws \<noteq> {} \<and> t \<notin> set (topics q))) \<Longrightarrow>
   affectedQuestions qs t kws = []"
  by (auto simp: affectedQuestions_def Let_def hasKeyword_iff filter_empty_conv)

lemma replaceUpdated_Nil: "replaceUpdated qs [] = map Some qs"
  by (simp add: replaceUpdated_def)

text \<open>
  C3. For a non-empty target topic and a non-empty list of trigger keywords, the
  qualifying records are exactly the records, in their order, that have at least one
  trigger keyword and lack the target topic; the output is exactly those records with the
  target topic appended to the end of their topics and every other field as it was. When
  the target topic or the trigger list is empty, both are the empty list: the functions
  return it like any other result.
\<close>

theorem autoTag_spec:
  "(targetTopic \<noteq> [] \<and> kws \<noteq> [] \<longrightarrow>
      affectedQuestions qs targetTopic kws =
        filter (\<lambda>q. set (q_keywords q) \<inter> set kws \<noteq> {} \<and> targetTopic \<notin> set (topics q)) qs \<and>
      handleApply qs targetTopic kws =
        map (\<lambda>q. q\<lparr>topics := topics q @ [targetTopic]\<rparr>)
          (filter (\<lambda>q. set (q_keywords q) \<inter> set kws \<noteq> {} \<and> targetTopic \<notin> set (topics q)) qs)) \<and>
   (targetTopic = [] \<or> kws = [] \<longrightarrow>
      affectedQuestions qs targetTopic kws = [] \<and> handleApply qs targetTopic kws = [])"
  by (simp add: affectedQuestions_def handleApply_def Let_def hasKeyword_iff)

theorem autoTag_spec_witness:
  "handleApply [sampleQuestion ''q1'' [''waves''] [] (YearNumber (Finite 2020)),
                sampleQuestion ''q2'' [''forces''] [] (YearNumber (Finite 2020))] ''B.4'' [''waves'']
     = [sampleQuestion ''q1'' [''waves''] [''B.4''] (YearNumber (Finite 2020))] \<and>
   handleApply [sampleQuestion ''q1'' [''waves''] [] (YearNumber (Finite 2020))] [] [''waves''] = [] \<and>
   handleApply [sampleQuestion ''q1'' [''waves''] [] (YearNumber (Finite 2020))] ''B.4'' [] = []"
  using
    autoTag_spec [of "''B.4''" "[''waves'']"
      "[sampleQuestion ''q1'' [''waves''] [] (YearNumber (Finite 2020)),
        sampleQuestion ''q2'' [''forces''] [] (YearNumber (Finite 2020))]"]
    autoTag_spec [of "[]" "[''waves'']" "[sampleQuestion ''q1'' [''waves''] [] (YearNumber (Finite 2020))]"]
    autoTag_spec [of "''B.4''" "[]" "[sampleQuestion ''q1'' [''waves''] [] (YearNumber (Finite 2020))]"]
  by (simp add: sampleQuestion_def)

text \<open>
  C7. Apply the rule once and let \<^verbatim>\<open>handleAutoTag\<close> replace the qualifying records by
  their updated versions. The replacement yields a record at every position (no
  \<^verbatim>\<open>undefined\<close>), the same rule matches no record of the resulting list, so its output is
  empty and a second replacement leaves the list, and with it every topic list, as it is.
\<close>

theorem autoTag_idempotent:
  "\<exists>qs'. replaceUpdated qs (handleApply qs t kws) = map Some qs' \<and>
          affectedQuestions qs' t kws = [] \<and>
          handleApply qs' t kws = [] \<and>
          replaceUpdated qs' (handleApply qs' t kws) = map Some qs'"
proof -
  define upd where "upd = handleApply qs t kws"
  define g where "g q = (if qid q \<in> qid ` set upd
                         then the (find (\<lambda>uq. qid uq = qid q) upd) else q)" for q
  have upd_topic: "t \<in> set (topics u)" if "u \<in> set upd" for u
    using that by (auto simp: upd_def handleApply_def)
  have upd_id: "qid q \<in> qid ` set upd"
    if "q \<in> set qs" "set (q_keywords q) \<inter> set kws \<noteq> {}" "t \<notin> set (topics q)"
      "t \<noteq> []" "kws \<noteq> []" for q
  proof -
    have "q \<in> set (affectedQuestions qs t kws)"
      using that by (simp add: affectedQuestions_def Let_def hasKeyword_iff)
    then have "q\<lparr>topics := topics q @ [t]\<rparr> \<in> set upd"
      by (simp add: upd_def handleApply_def)
    then have "qid (q\<lparr>topics := topics q @ [t]\<rparr>) \<in> qid ` set upd"
      by (rule imageI)
    then show ?thesis by simp
  qed
  have step1: "replaceUpdated qs upd = map Some (map g qs)"
  proof -
    have "(if qid q \<in> set (map qid upd) then find (\<lambda>uq. qid uq = qid q) upd else Some q)
          = Some (g q)" for q
      using find_by_qid [of "qid q" upd] by (auto simp: g_def)
    then show ?thesis by (simp add: replaceUpdated_def)
  qed
  have none: "\<not> (set (q_keywords (g q)) \<inter> set kws \<noteq> {} \<and> t \<notin> set (topics (g q)))"
    if q: "q \<in> set qs" and ne: "t \<noteq> []" "kws \<noteq> []" for q
  proof (cases "qid q \<in> qid ` set upd")
    case True
    then obtain u where "find (\<lambda>uq. qid uq = qid q) upd = Some u" "u \<in> set upd"
      using find_by_qid [of "qid q" upd] by blast
    then have "g q = u" "t \<in> set (topics u)" using True upd_topic by (simp_all add: g_def)
    then show ?thesis by simp
  next
    case False
    then have "g q = q" by (simp add: g_def)
    then show ?thesis using False upd_id [OF q] ne by auto
  qed
  have step2: "affectedQuestions (map g qs) t kws = []"
  proof (cases "t = [] \<or> kws = []")
    case True
    then show ?thesis by (auto simp: affectedQuestions_def)
  next
    case False
    then show ?thesis using none by (intro affectedQuestions_empty) auto
  qed
  have step3: "handleApply (map g qs) t kws = []"
    using step2 by (simp add: handleApply_def)
  show ?thesis
  proof (intro exI [of _ "map g qs"] conjI)
    show "replaceUpdated qs (handleApply qs t kws) = map Some (map g qs)"
      using step1 by (simp add: upd_def)
    show "affectedQuestions (map g qs) t kws = []" by (rule step2)
    show "handleApply (map g qs) t kws = []" by (rule step3)
    show "replaceUpdated (map g qs) (handleApply (map g qs) t kws) = map Some (map g qs)"
      by (simp only: step3 replaceUpdated_Nil)
  qed
qed

section \<open>Tag state manager\<close>

lemma toggle_disjoint:
  "set (included ty f) \<inter> set (excluded ty f) = {} \<Longrightarrow>
   set (included ty (toggle f (ty', v))) \<inter> set (excluded ty (toggle f (ty', v))) = {}"
  by (cases ty; cases ty') (auto simp: toggleKeywordFilter_def toggleTopicFilter_def)

lemma toggles_disjoint:
  "set (included ty f) \<inter> set (excluded ty f) = {} \<Longrightarrow>
   set (included ty (toggles clicks f)) \<inter> set (excluded ty (toggles clicks f)) = {}"
  unfolding toggles_def
proof (induction clicks arbitrary: f)
  case Nil
  then show ?case by simp
next
  case (Cons c clicks)
  obtain ty' v where c: "c = (ty', v)" by (cases c)
  show ?case using Cons.IH [OF toggle_disjoint [OF Cons.prems, of ty' v]] by (simp add: c)
qed

text \<open>
  C5. After any sequence of toggles from the initial filter state, no tag value is in both
  the included and the excluded array of a namespace; and one toggle, of any tag in
  either namespace, keeps the two arrays of a namespace disjoint when they were.
\<close>

theorem toggles_never_both:
  "\<not> (v \<in> set (included ty (toggles clicks initialFilter)) \<and>
      v \<in> set (excluded ty (toggles clicks initialFilter))) \<and>
   (set (included ty f) \<inter> set (excluded ty f) = {} \<longrightarrow>
      set (included ty (toggle f (ty', u))) \<inter> set (excluded ty (toggle f (ty', u))) = {})"
proof -
  have "set (included ty initialFilter) \<inter> set (excluded ty initialFilter) = {}"
    by (cases ty) (simp_all add: initialFilter_def)
  from toggles_disjoint [OF this, of clicks] toggle_disjoint [of ty f ty' u]
  show ?thesis by blast
qed

theorem toggles_never_both_witness:
  "\<not> (''waves'' \<in> set (included Keyword
         (toggles [(Keyword, ''waves''), (Topic, ''B.4''), (Keyword, ''waves'')] initialFilter)) \<and>
      ''waves'' \<in> set (excluded Keyword
         (toggles [(Keyword, ''waves''), (Topic, ''B.4''), (Keyword, ''waves'')] initialFilter))) \<and>
   set (included Keyword initialFilter) \<inter> set (excluded Keyword initialFilter) = {} \<and>
   set (included Keyword (toggle initialFilter (Keyword, ''waves''))) \<inter>
     set (excluded Keyword (toggle initialFilter (Keyword, ''waves''))) = {}"
  using toggles_never_both [of "''waves''" Keyword
      "[(Keyword, ''waves''), (Topic, ''B.4''), (Keyword, ''waves'')]" initialFilter Keyword "''waves''"]
  by (simp add: initialFilter_def)

text \<open>
  C6. In a state whose included and excluded arrays of a namespace are disjoint, one
  toggle of a tag value: moves it from included to excluded; or removes it from excluded,
  leaving it in neither; or, when it is in neither, adds it to included. Three toggles of
  a neutral tag give back the state they started from, where the tag is neutral.
\<close>

theorem toggle_transition:
  assumes "set (included ty f) \<inter> set (excluded ty f) = {}"
  shows "(v \<in> set (included ty f) \<longrightarrow>
            v \<notin> set (included ty (toggle f (ty, v))) \<and> v \<in> set (excluded ty (toggle f (ty, v)))) \<and>
         (v \<in> set (excluded ty f) \<longrightarrow>
            v \<notin> set (included ty (toggle f (ty, v))) \<and> v \<notin> set (excluded ty (toggle f (ty, v)))) \<and>
         (v \<notin> set (included ty f) \<and> v \<notin> set (excluded ty f) \<longrightarrow>
            v \<in> set (included ty (toggle f (ty, v))) \<and> v \<notin> set (excluded ty (toggle f (ty, v))) \<and>
            toggle (toggle (toggle f (ty, v)) (ty, v)) (ty, v) = f \<and>
            getTagState (toggle (toggle (toggle f (ty, v)) (ty, v)) (ty, v)) v ty = Neutral)"
  using assms
  by (cases ty) (auto simp: toggleKeywordFilter_def toggleTopicFilter_def getTagState_def filter_neq_id)

theorem toggle_transition_witness:
  "set (included Topic initialFilter) \<inter> set (excluded Topic initialFilter) = {} \<and>
   getTagState initialFilter ''B.4'' Topic = Neutral \<and>
   getTagState (toggle initialFilter (Topic, ''B.4'')) ''B.4'' Topic = Include \<and>
   getTagState (toggle (toggle initialFilter (Topic, ''B.4'')) (Topic, ''B.4'')) ''B.4'' Topic = Exclude \<and>
   toggle (toggle (toggle initialFilter (Topic, ''B.4'')) (Topic, ''B.4'')) (Topic, ''B.4'')
     = initialFilter"
proof -
  have h: "set (included Topic initialFilter) \<inter> set (excluded Topic initialFilter) = {}"
    by (simp add: initialFilter_def)
  have h1: "set (included Topic (toggle initialFilter (Topic, ''B.4''))) \<inter>
            set (excluded Topic (toggle initialFilter (Topic, ''B.4''))) = {}"
    by (simp add: initialFilter_def toggleTopicFilter_def)
  have h2: "set (included Topic (toggle (toggle initialFilter (Topic, ''B.4'')) (Topic, ''B.4''))) \<inter>
            set (excluded Topic (toggle (toggle initialFilter (Topic, ''B.4'')) (Topic, ''B.4''))) = {}"
    by (simp add: initialFilter_def toggleTopicFilter_def)
  show ?thesis
    using h toggle_transition [OF h, of "''B.4''"] toggle_transition [OF h1, of "''B.4''"]
      toggle_transition [OF h2, of "''B.4''"]
    by (simp add: initialFilter_def getTagState_def toggleTopicFilter_def)
qed

text \<open>
  C10. Toggling a tag value changes no other tag value: every other value keeps its
  membership in the included and excluded arrays of both namespaces, and its tag state. A
  keyword toggle leaves the two topic arrays as they are, and a topic toggle the two
  keyword arrays.
\<close>

theorem toggle_frame:
  "(u \<noteq> v \<longrightarrow>
      (u \<in> set (included ty' (toggle f (ty, v))) \<longleftrightarrow> u \<in> set (included ty' f)) \<and>
      (u \<in> set (excluded ty' (toggle f (ty, v))) \<longleftrightarrow> u \<in> set (excluded ty' f)) \<and>
      getTagState (toggle f (ty, v)) u ty' = getTagState f u ty') \<and>
   includedTopics (toggleKeywordFilter v f) = includedTopics f \<and>
   excludedTopics (toggleKeywordFilter v f) = excludedTopics f \<and>
   includedKeywords (toggleTopicFilter v f) = includedKeywords f \<and>
   excludedKeywords (toggleTopicFilter v f) = excludedKeywords f"
  by (cases ty; cases ty') (auto simp: toggleKeywordFilter_def toggleTopicFilter_def getTagState_def)

theorem toggle_frame_witness:
  "''forces'' \<noteq> ''waves'' \<and>
   getTagState (toggle (toggle initialFilter (Keyword, ''forces'')) (Keyword, ''waves''))
     ''forces'' Keyword = Include \<and>
   includedTopics (toggleKeywordFilter ''waves'' (toggle initialFilter (Topic, ''B.4'')))
     = [''B.4'']"
  using toggle_frame [of "''forces''" "''waves''" Keyword
      "toggle initialFilter (Keyword, ''forces'')" Keyword]
    toggle_frame [of "''forces''" "''waves''" Keyword "toggle initialFilter (Topic, ''B.4'')" Keyword]
  by (simp add: initialFilter_def getTagState_def toggleKeywordFilter_def toggleTopicFilter_def)

section \<open>Record store: the object store\<close>

lemma ids_store_put: "qid ` set (store_put q s) = insert (qid q) (qid ` set s)"
  by (induction s) auto

lemma store_put_inv: "store_inv s \<Longrightarrow> store_inv (store_put q s)"
  unfolding store_inv_def
proof (induction s)
  case Nil
  then show ?case by simp
next
  case (Cons r rs)
  have ids: "set (map qid (store_put q rs)) = insert (qid q) (set (map qid rs))"
    using ids_store_put [of q rs] by simp
  from Cons show ?case
    by (auto simp: ids simp del: set_map)
qed

lemma apply_request_inv:
  assumes "store_inv s"
  shows "store_inv (apply_request r s)"
proof (cases r)
  case (Put q)
  then show ?thesis using assms by (simp add: store_put_inv)
next
  case GetAll
  then show ?thesis using assms by simp
next
  case (Delete i)
  then show ?thesis using assms
    by (simp add: store_delete_def store_inv_def sorted_wrt_map sorted_wrt_filter)
next
  case Clear
  then show ?thesis by (simp add: store_inv_def)
qed

lemma store_inv_distinct: "store_inv s \<Longrightarrow> distinct (map qid s)"
  by (simp add: store_inv_def strict_sorted_iff)

lemma store_put_idem: "store_put q (store_put q s) = store_put q s"
  by (induction s) auto

lemma store_put_same: "store_inv s \<Longrightarrow> filter (\<lambda>r. qid r = qid q) (store_put q s) = [q]"
  unfolding store_inv_def
  by (induction s) (auto simp: filter_empty_conv)

lemma store_put_others:
  "filter (\<lambda>r. qid r \<noteq> qid q) (store_put q s) = filter (\<lambda>r. qid r \<noteq> qid q) s"
  by (induction s) auto

lemma store_put_length:
  "store_inv s \<Longrightarrow>
   length (store_put q s) = (if qid q \<in> qid ` set s then length s else Suc (length s))"
  unfolding store_inv_def by (induction s) auto

lemma store_put_mem: "q \<in> set (store_put q s)"
  by (induction s) auto

lemma store_put_keeps: "r \<in> set s \<Longrightarrow> qid r \<noteq> qid q \<Longrightarrow> r \<in> set (store_put q s)"
  by (induction s) auto

lemma foldl_put_inv: "store_inv s \<Longrightarrow> store_inv (foldl (\<lambda>w q. store_put q w) s qs)"
  by (induction qs arbitrary: s) (simp_all add: store_put_inv)

lemma foldl_put_ids:
  "qid ` set (foldl (\<lambda>w q. store_put q w) s qs) = qid ` set qs \<union> qid ` set s"
  by (induction qs arbitrary: s) (auto simp: ids_store_put)

lemma foldl_put_mem:
  "distinct (map qid qs) \<Longrightarrow> set qs \<subseteq> set (foldl (\<lambda>w q. store_put q w) s qs)"
proof (induction qs arbitrary: s rule: rev_induct)
  case Nil
  then show ?case by simp
next
  case (snoc q qs)
  then have "set qs \<subseteq> set (foldl (\<lambda>w q. store_put q w) s qs)" by simp
  moreover have "\<forall>x \<in> set qs. qid x \<noteq> qid q" using snoc.prems by (fastforce simp: image_iff)
  ultimately show ?case
    by (auto simp: store_put_mem intro: store_put_keeps)
qed

section \<open>Record store: transactions\<close>

lemma run_requests_all_succeed:
  "(\<forall>j < length rs. requestFails eng (i + j) = None) \<Longrightarrow>
   \<exists>ss. run_requests eng i rs w = (ss, Some (foldl (\<lambda>w r. apply_request r w) w rs)) \<and>
        (\<forall>ev \<in> set ss. \<exists>k r. ev = RequestSuccess k r)"
proof (induction rs arbitrary: i w)
  case Nil
  then show ?case by simp
next
  case (Cons r rs)
  have here: "requestFails eng i = None" using Cons.prems by force
  have "\<forall>j < length rs. requestFails eng (Suc i + j) = None"
    using Cons.prems by force
  from Cons.IH [OF this, of "apply_request r w"] here show ?case
    by auto
qed

lemma run_requests_one_fails:
  "\<exists>j < length rs. requestFails eng (i + j) \<noteq> None \<Longrightarrow>
   \<exists>ss k e rest. run_requests eng i rs w
                   = (ss @ RequestError k e # TransactionError None # rest, None) \<and>
                 (\<forall>ev \<in> set ss. \<exists>k r. ev = RequestSuccess k r)"
proof (induction rs arbitrary: i w)
  case Nil
  then show ?case by simp
next
  case (Cons r rs)
  show ?case
  proof (cases "requestFails eng i")
    case (Some e)
    then have "run_requests eng i (r # rs) w
        = ([] @ RequestError i e # TransactionError None # abort_events e (Suc i) rs, None)"
      by simp
    then show ?thesis by (metis empty_iff list.set(1))
  next
    case None
    from Cons.prems obtain j where j: "j < Suc (length rs)" "requestFails eng (i + j) \<noteq> None"
      by auto
    with None have "j \<noteq> 0" by (cases j) auto
    then obtain j' where "j = Suc j'" by (cases j) auto
    with j have "\<exists>j < length rs. requestFails eng (Suc i + j) \<noteq> None" by auto
    from Cons.IH [OF this, of "apply_request r w"] obtain ss k e rest where
      rr: "run_requests eng (Suc i) rs (apply_request r w)
            = (ss @ RequestError k e # TransactionError None # rest, None)"
      and ss: "\<forall>ev \<in> set ss. \<exists>k r. ev = RequestSuccess k r"
      by blast
    have "run_requests eng i (r # rs) w
        = ((RequestSuccess i (request_result r w) # ss)
            @ RequestError k e # TransactionError None # rest, None)"
      using None rr by simp
    moreover have "\<forall>ev \<in> set (RequestSuccess i (request_result r w) # ss).
        \<exists>k r. ev = RequestSuccess k r"
      using ss by simp
    ultimately show ?thesis by blast
  qed
qed

lemma bulk_handler_successes:
  "(\<forall>ev \<in> set ss. \<exists>k r. ev = RequestSuccess k r) \<Longrightarrow> foldl bulk_handler p ss = p"
  by (induction ss arbitrary: p) auto

lemma bulk_handler_settled: "foldl bulk_handler (Some x) evs = Some x"
proof (induction evs)
  case Nil
  then show ?case by simp
next
  case (Cons ev evs)
  have "bulk_handler (Some x) ev = Some x"
    by (cases ev) (simp_all add: settle_def)
  with Cons show ?case by simp
qed

lemma foldl_apply_puts:
  "foldl (\<lambda>w r. apply_request r w) s (map Put qs) = foldl (\<lambda>w q. store_put q w) s qs"
  by (induction qs arbitrary: s) simp_all

lemma bulk_success:
  assumes "\<not> openFails eng" "\<forall>k < length qs. requestFails eng k = None" "commitFails eng = None"
  shows "bulkUpdateQuestions eng qs s = (Some (Inr ()), foldl (\<lambda>w q. store_put q w) s qs)"
proof -
  from assms(2) have "\<forall>j < length (map Put qs). requestFails eng (0 + j) = None" by simp
  from run_requests_all_succeed [OF this, of s] obtain ss where
    "run_requests eng 0 (map Put qs) s = (ss, Some (foldl (\<lambda>w r. apply_request r w) s (map Put qs)))"
    "\<forall>ev \<in> set ss. \<exists>k r. ev = RequestSuccess k r" by blast
  then show ?thesis
    using assms(1,3)
    by (simp add: bulkUpdateQuestions_def initDB_def run_transaction_def bulk_handler_successes
        foldl_apply_puts settle_def)
qed

lemma bulk_commit_failure:
  assumes "\<not> openFails eng" "\<forall>k < length qs. requestFails eng k = None" "commitFails eng = Some e"
  shows "bulkUpdateQuestions eng qs s = (Some (Inl (RejectError (Some e))), s)"
proof -
  from assms(2) have "\<forall>j < length (map Put qs). requestFails eng (0 + j) = None" by simp
  from run_requests_all_succeed [OF this, of s] obtain ss where
    "run_requests eng 0 (map Put qs) s = (ss, Some (foldl (\<lambda>w r. apply_request r w) s (map Put qs)))"
    "\<forall>ev \<in> set ss. \<exists>k r. ev = RequestSuccess k r" by blast
  then show ?thesis
    using assms(1,3)
    by (simp add: bulkUpdateQuestions_def initDB_def run_transaction_def bulk_handler_successes settle_def)
qed

lemma bulk_request_failure:
  assumes "\<not> openFails eng" "\<exists>k < length qs. requestFails eng k \<noteq> None"
  shows "bulkUpdateQuestions eng qs s = (Some (Inl (RejectError None)), s)"
proof -
  from assms(2) have "\<exists>j < length (map Put qs). requestFails eng (0 + j) \<noteq> None" by simp
  from run_requests_one_fails [OF this, of s] obtain ss k e rest where
    "run_requests eng 0 (map Put qs) s
       = (ss @ RequestError k e # TransactionError None # rest, None)"
    "\<forall>ev \<in> set ss. \<exists>k r. ev = RequestSuccess k r" by blast
  then show ?thesis
    using assms(1)
    by (simp add: bulkUpdateQuestions_def initDB_def run_transaction_def bulk_handler_successes
        bulk_handler_settled settle_def)
qed

lemma bulk_open_failure:
  "openFails eng \<Longrightarrow> \<exists>r. bulkUpdateQuestions eng qs s = (Some (Inl r), s)"
  by (cases "openOutcome eng") (simp_all add: bulkUpdateQuestions_def initDB_def)

lemma getAll_healthy: "getAllQuestions healthyEngine s = (Some (Inr s), s)"
  by (simp add: getAllQuestions_def initDB_def healthyEngine_def run_transaction_def settle_def)

lemma add_success:
  assumes "\<not> openFails eng" "requestFails eng 0 = None" "commitFails eng = None"
  shows "addQuestionToDB eng q s = (Some (Inr ()), store_put q s)"
  using assms by (simp add: addQuestionToDB_def initDB_def run_transaction_def settle_def)

text \<open>
  The single put resolves at the success event of its request. When the transaction then
  fails to commit, the store is as it was and the promise stays resolved.
\<close>

lemma add_commit_failure:
  assumes "\<not> openFails eng" "requestFails eng 0 = None" "commitFails eng = Some e"
  shows "addQuestionToDB eng q s = (Some (Inr ()), s)"
  using assms by (simp add: addQuestionToDB_def initDB_def run_transaction_def settle_def)

text \<open>
  C4. A bulk write is all or nothing. Whatever the engine does, the call either resolves
  and leaves the store with every record of the list put, in order, by its id (so every id
  of the list is a key of the store, and every record of the list is stored when the ids of
  the list are pairwise different), or it rejects and leaves the store exactly as it was
  before the call. It rejects, with the store as before, whenever the open fails, a put
  request fails at any position of the list, or the commit fails; a read of all records
  afterwards then returns the records from before the call. It resolves when nothing
  fails.
\<close>

theorem bulkUpdateQuestions_atomic:
  assumes "bulkUpdateQuestions eng qs s = (p, s')"
  shows "((p = Some (Inr ()) \<and> s' = foldl (\<lambda>w q. store_put q w) s qs \<and>
           qid ` set qs \<subseteq> qid ` set s' \<and> (distinct (map qid qs) \<longrightarrow> set qs \<subseteq> set s')) \<or>
          ((\<exists>e. p = Some (Inl e)) \<and> s' = s)) \<and>
         (openFails eng \<or> (\<exists>k < length qs. requestFails eng k \<noteq> None) \<or> commitFails eng \<noteq> None \<longrightarrow>
            (\<exists>e. p = Some (Inl e)) \<and> s' = s \<and>
            getAllQuestions healthyEngine s' = (Some (Inr s), s)) \<and>
         (\<not> openFails eng \<and> (\<forall>k < length qs. requestFails eng k = None) \<and> commitFails eng = None \<longrightarrow>
            p = Some (Inr ()) \<and> s' = foldl (\<lambda>w q. store_put q w) s qs)"
proof -
  consider (a) "openFails eng"
    | (b) "\<not> openFails eng" "\<exists>k < length qs. requestFails eng k \<noteq> None"
    | (c) e where "\<not> openFails eng" "\<forall>k < length qs. requestFails eng k = None"
        "commitFails eng = Some e"
    | (d) "\<not> openFails eng" "\<forall>k < length qs. requestFails eng k = None" "commitFails eng = None"
    by (cases "commitFails eng"; cases "openFails eng";
        cases "\<exists>k < length qs. requestFails eng k \<noteq> None") auto
  then show ?thesis
  proof cases
    case a
    then obtain r where "p = Some (Inl r)" "s' = s"
      using assms bulk_open_failure [of eng qs s] by auto
    then show ?thesis using a by (simp add: getAll_healthy)
  next
    case b
    then have "p = Some (Inl (RejectError None))" "s' = s"
      using assms bulk_request_failure [of eng qs s] by simp_all
    then show ?thesis using b by (simp add: getAll_healthy)
  next
    case c
    then have "p = Some (Inl (RejectError (Some e)))" "s' = s"
      using assms bulk_commit_failure [of eng qs e s] by simp_all
    then show ?thesis using c by (simp add: getAll_healthy)
  next
    case d
    then have "p = Some (Inr ())" "s' = foldl (\<lambda>w q. store_put q w) s qs"
      using assms bulk_success [of eng qs s] by simp_all
    then show ?thesis using d foldl_put_mem [of qs s]
      by (auto simp: foldl_put_ids)
  qed
qed

theorem bulkUpdateQuestions_atomic_witness:
  "bulkUpdateQuestions
     (healthyEngine\<lparr>requestFails := (\<lambda>i. if i = 1 then Some ''QuotaExceededError'' else None)\<rparr>)
     [sampleQuestion ''q1'' [''waves''] [''B.4''] YearUnknown,
      sampleQuestion ''q2'' [''forces''] [''B.4''] YearUnknown]
     [sampleQuestion ''q1'' [''waves''] [] YearUnknown]
   = (Some (Inl (RejectError None)), [sampleQuestion ''q1'' [''waves''] [] YearUnknown]) \<and>
   getAllQuestions healthyEngine [sampleQuestion ''q1'' [''waves''] [] YearUnknown]
   = (Some (Inr [sampleQuestion ''q1'' [''waves''] [] YearUnknown]),
      [sampleQuestion ''q1'' [''waves''] [] YearUnknown])"
proof -
  have run: "bulkUpdateQuestions
     (healthyEngine\<lparr>requestFails := (\<lambda>i. if i = 1 then Some ''QuotaExceededError'' else None)\<rparr>)
     [sampleQuestion ''q1'' [''waves''] [''B.4''] YearUnknown,
      sampleQuestion ''q2'' [''forces''] [''B.4''] YearUnknown]
     [sampleQuestion ''q1'' [''waves''] [] YearUnknown]
   = (Some (Inl (RejectError None)), [sampleQuestion ''q1'' [''waves''] [] YearUnknown])"
    by (simp add: bulkUpdateQuestions_def initDB_def healthyEngine_def run_transaction_def settle_def)
  show ?thesis
    using run bulkUpdateQuestions_atomic [OF run]
    by (simp add: healthyEngine_def)
qed

text \<open>
  C8. A put whose open, request and commit succeed, on a store of pairwise different
  keys: the call resolves and the store becomes \<open>store_put q s\<close>, whose keys are again
  strictly increasing, hence pairwise different; the one record under the id of \<open>q\<close> is
  \<open>q\<close> itself, whole; the records of every other id are as they were; the number of
  records is unchanged when the id was present and one more when it was not; and putting
  the same record once more resolves and leaves the store as it is.
\<close>

theorem addQuestionToDB_upsert:
  assumes "store_inv s" "\<not> openFails eng" "requestFails eng 0 = None" "commitFails eng = None"
  shows "addQuestionToDB eng q s = (Some (Inr ()), store_put q s) \<and>
         store_inv (store_put q s) \<and>
         distinct (map qid (store_put q s)) \<and>
         filter (\<lambda>r. qid r = qid q) (store_put q s) = [q] \<and>
         filter (\<lambda>r. qid r \<noteq> qid q) (store_put q s) = filter (\<lambda>r. qid r \<noteq> qid q) s \<and>
         length (store_put q s) = (if qid q \<in> qid ` set s then length s else Suc (length s)) \<and>
         addQuestionToDB eng q (store_put q s) = (Some (Inr ()), store_put q s)"
  using assms add_success [of eng q s] add_success [of eng q "store_put q s"]
  by (simp add: store_put_inv store_inv_distinct store_put_same store_put_others store_put_length
      store_put_idem)

theorem addQuestionToDB_upsert_witness:
  "store_inv [sampleQuestion ''q1'' [''calculus''] [] (YearNumber (Finite 2020))] \<and>
   addQuestionToDB healthyEngine (sampleQuestion ''q1'' [''waves''] [''B.4''] YearUnknown)
      [sampleQuestion ''q1'' [''calculus''] [] (YearNumber (Finite 2020))]
     = (Some (Inr ()), [sampleQuestion ''q1'' [''waves''] [''B.4''] YearUnknown]) \<and>
   addQuestionToDB healthyEngine (sampleQuestion ''q1'' [''waves''] [''B.4''] YearUnknown)
      [sampleQuestion ''q1'' [''waves''] [''B.4''] YearUnknown]
     = (Some (Inr ()), [sampleQuestion ''q1'' [''waves''] [''B.4''] YearUnknown])"
proof -
  have h: "store_inv [sampleQuestion ''q1'' [''calculus''] [] (YearNumber (Finite 2020))]"
    by (simp add: store_inv_def)
  have e: "\<not> openFails healthyEngine" "requestFails healthyEngine 0 = None"
    "commitFails healthyEngine = None"
    by (simp_all add: healthyEngine_def)
  show ?thesis
    using h addQuestionToDB_upsert [OF h e, of "sampleQuestion ''q1'' [''waves''] [''B.4''] YearUnknown"]
    by (simp add: sampleQuestion_def)
qed




end
